theory Spec2Isabelle
  imports Complex_Main
begin

section \<open>Numbers, errors and the random sampler\<close>

text \<open>
  The script \<^verbatim>\<open>complete_analysis.py\<close> computes on Python floats. They are modelled as
  exact reals: every statement below is about the arithmetic the script writes down, not
  about the last bit of a binary64 result. Python's \<^verbatim>\<open>round(x, 2)\<close> rounds the binary64
  value to the nearest multiple of 0.01; \<open>round2\<close> rounds the exact real, a tie going to
  the even neighbour. The two can differ by a cent where the exact value is a decimal tie
  such as 2.675 or 599.805, which binary64 does not hold exactly. No statement below
  rests on the direction of a tie, and none bounds a difference of stored fields to the
  cent.
\<close>

datatype py_error = ZeroDivisionError | IndexError | ValueError

datatype tier = Metro | Tier2 | Tier3

definition round_half_even :: "real \<Rightarrow> int" where
  "round_half_even x =
     (let f = \<lfloor>x\<rfloor>; d = x - of_int f
      in if d < 1 / 2 then f
         else if 1 / 2 < d then f + 1
         else if even f then f else f + 1)"

definition round2 :: "real \<Rightarrow> real" where
  "round2 x = of_int (round_half_even (x * 100)) / 100"

text \<open>\<^verbatim>\<open>int(x)\<close> on a float truncates towards zero.\<close>

definition py_int :: "real \<Rightarrow> int" where
  "py_int x = (if 0 \<le> x then \<lfloor>x\<rfloor> else \<lceil>x\<rceil>)"

text \<open>\<^verbatim>\<open>a / b\<close> raises \<^verbatim>\<open>ZeroDivisionError\<close> when \<open>b\<close> is zero.\<close>

definition py_truediv :: "real \<Rightarrow> real \<Rightarrow> py_error + real" where
  "py_truediv a b = (if b = 0 then Inl ZeroDivisionError else Inr (a / b))"

text \<open>
  The sampler is the library's. Each call is modelled by its documented contract, as a
  function of the underlying draw: \<open>u\<close> is a sample of the unit interval \<open>[0, 1)\<close>, \<open>z\<close> a
  standard normal sample.
  \<^item> \<^verbatim>\<open>np.random.uniform(low, high)\<close> is \<open>low + (high - low) * u\<close>;
  \<^item> \<^verbatim>\<open>np.random.randint(low, high)\<close> is an integer of \<open>[low, high)\<close>;
  \<^item> \<^verbatim>\<open>np.random.lognormal(mean, sigma)\<close> is \<open>exp (mean + sigma * z)\<close>;
  \<^item> \<^verbatim>\<open>np.random.choice(a, p=p)\<close> checks that \<open>a\<close> and \<open>p\<close> have the same size and that
    \<open>p\<close> sums to one, and returns the entry of \<open>a\<close> at the position where the cumulative
    sums of \<open>p\<close> first exceed \<open>u\<close>.
\<close>

definition np_uniform :: "real \<Rightarrow> real \<Rightarrow> real \<Rightarrow> real" where
  "np_uniform low high u = low + (high - low) * u"

definition np_randint :: "int \<Rightarrow> int \<Rightarrow> real \<Rightarrow> int" where
  "np_randint low high u = low + \<lfloor>of_int (high - low) * u\<rfloor>"

definition np_lognormal :: "real \<Rightarrow> real \<Rightarrow> real \<Rightarrow> real" where
  "np_lognormal mean sigma z = exp (mean + sigma * z)"

fun searchsorted_right :: "real list \<Rightarrow> real \<Rightarrow> real \<Rightarrow> nat" where
  "searchsorted_right [] acc u = 0"
| "searchsorted_right (p # ps) acc u =
     (if u < acc + p then 0 else Suc (searchsorted_right ps (acc + p) u))"

definition np_choice :: "'a list \<Rightarrow> real list \<Rightarrow> real \<Rightarrow> py_error + 'a" where
  "np_choice a p u =
     (if length a \<noteq> length p \<or> sum_list p \<noteq> 1 then Inl ValueError
      else let i = searchsorted_right p 0 u
           in if i < length a then Inr (a ! i) else Inl IndexError)"

definition unit_sample :: "real \<Rightarrow> bool" where
  "unit_sample u \<longleftrightarrow> 0 \<le> u \<and> u < 1"

section \<open>Products\<close>

record category_details =
  items :: "string list"
  cost_range :: "real \<times> real"
  margin_range :: "real \<times> real"
  perishable :: bool

text \<open>The dictionary \<^verbatim>\<open>product_categories\<close>, in insertion order.\<close>

definition product_categories :: "(string \<times> category_details) list" where
  "product_categories =
    [(''Groceries'',
      \<lparr>items = [''Basmati Rice 5kg'', ''Wheat Flour 10kg'', ''Sunflower Oil 1L'',
                ''Sugar 1kg'', ''Toor Dal 1kg'', ''Spices Mix''],
       cost_range = (40, 250), margin_range = (12, 20), perishable = False\<rparr>),
     (''Fresh Produce'',
      \<lparr>items = [''Seasonal Vegetables'', ''Fresh Fruits'', ''Milk 1L'', ''Eggs Dozen'',
                ''Paneer 200g'', ''Fresh Chicken''],
       cost_range = (30, 180), margin_range = (18, 28), perishable = True\<rparr>),
     (''Packaged Foods'',
      \<lparr>items = [''Biscuits Assorted'', ''Namkeen Mix'', ''Instant Noodles'', ''Sauces'',
                ''Beverages'', ''Bread''],
       cost_range = (25, 150), margin_range = (15, 25), perishable = False\<rparr>),
     (''Personal Care'',
      \<lparr>items = [''Shampoo 200ml'', ''Soap Bar'', ''Toothpaste'', ''Face Wash'',
                ''Body Lotion'', ''Hair Oil''],
       cost_range = (50, 300), margin_range = (20, 35), perishable = False\<rparr>),
     (''Home Care'',
      \<lparr>items = [''Detergent 1kg'', ''Floor Cleaner'', ''Dishwash Liquid'',
                ''Toilet Cleaner'', ''Air Freshener''],
       cost_range = (40, 200), margin_range = (18, 28), perishable = False\<rparr>),
     (''Electronics'',
      \<lparr>items = [''Mobile Phones'', ''TWS Earbuds'', ''Phone Chargers'', ''Power Banks'',
                ''Smart Watches''],
       cost_range = (500, 15000), margin_range = (8, 15), perishable = False\<rparr>),
     (''Fashion'',
      \<lparr>items = [''T-Shirts'', ''Jeans'', ''Footwear'', ''Accessories'', ''Kids Wear''],
       cost_range = (200, 2000), margin_range = (25, 45), perishable = False\<rparr>)]"

record product =
  product_id :: nat
  product_name :: string
  category :: string
  unit_cost :: real
  list_price :: real
  target_margin_pct :: real
  is_perishable :: bool
  avg_shelf_life_days :: int

text \<open>
  One pass of the inner loop body (lines 154 to 168). The three draws are the unit samples
  behind the two \<^verbatim>\<open>uniform\<close> calls and the \<^verbatim>\<open>randint\<close> call, in the order the script
  makes them. The product id is kept as the counter; the script prints it as
  \<^verbatim>\<open>PRD\<close> followed by four digits.
\<close>

definition make_product ::
  "nat \<Rightarrow> string \<Rightarrow> category_details \<Rightarrow> string \<Rightarrow> real \<Rightarrow> real \<Rightarrow> real \<Rightarrow> py_error + product" where
  "make_product prod_id cat details item u1 u2 u3 =
     (let cost_v = np_uniform (fst (cost_range details)) (snd (cost_range details)) u1;
          margin_pct_v = np_uniform (fst (margin_range details)) (snd (margin_range details)) u2
      in case py_truediv cost_v (1 - margin_pct_v / 100) of
           Inl e \<Rightarrow> Inl e
         | Inr list_price_v \<Rightarrow>
             Inr \<lparr>product_id = prod_id,
                  product_name = item,
                  category = cat,
                  unit_cost = round2 cost_v,
                  list_price = round2 list_price_v,
                  target_margin_pct = round2 margin_pct_v,
                  is_perishable = perishable details,
                  avg_shelf_life_days =
                    (if perishable details then np_randint 1 7 u3
                     else np_randint 180 730 u3)\<rparr>)"

text \<open>
  The generator state: the rows appended so far, the next product id, and the position in
  the stream of unit samples that stands for the seeded global generator.
\<close>

type_synonym gen_state = "product list \<times> nat \<times> nat"

fun items_loop ::
  "(nat \<Rightarrow> real) \<Rightarrow> string \<Rightarrow> category_details \<Rightarrow> string list \<Rightarrow> gen_state \<Rightarrow> py_error + gen_state" where
  "items_loop rng cat details [] st = Inr st"
| "items_loop rng cat details (item # rest) (products_data, prod_id, pos) =
     (case make_product prod_id cat details item (rng pos) (rng (pos + 1)) (rng (pos + 2)) of
        Inl e \<Rightarrow> Inl e
      | Inr row \<Rightarrow> items_loop rng cat details rest (products_data @ [row], prod_id + 1, pos + 3))"

fun categories_loop ::
  "(nat \<Rightarrow> real) \<Rightarrow> (string \<times> category_details) list \<Rightarrow> gen_state \<Rightarrow> py_error + gen_state" where
  "categories_loop rng [] st = Inr st"
| "categories_loop rng ((cat, details) # rest) st =
     (case items_loop rng cat details (items details) st of
        Inl e \<Rightarrow> Inl e
      | Inr st' \<Rightarrow> categories_loop rng rest st')"

definition generate_products :: "(nat \<Rightarrow> real) \<Rightarrow> nat \<Rightarrow> py_error + product list" where
  "generate_products rng pos0 =
     (case categories_loop rng product_categories ([], 1, pos0) of
        Inl e \<Rightarrow> Inl e
      | Inr (products_data, prod_id, pos) \<Rightarrow> Inr products_data)"

text \<open>
  What the proofs below need of a category's ranges: costs start at 25 or more and
  margins lie between 8 and 45. Every row of the table satisfies it.
\<close>

definition ranges_ok :: "category_details \<Rightarrow> bool" where
  "ranges_ok details \<longleftrightarrow>
     25 \<le> fst (cost_range details) \<and> fst (cost_range details) \<le> snd (cost_range details)
     \<and> 8 \<le> fst (margin_range details)
     \<and> fst (margin_range details) \<le> snd (margin_range details)
     \<and> snd (margin_range details) \<le> 45"

text \<open>
  The order in which the two nested loops of lines 152 and 153 visit the table: every
  category in insertion order, and within it every item name in list order.
\<close>

definition loop_order ::
  "(string \<times> category_details) list \<Rightarrow> (string \<times> category_details \<times> string) list" where
  "loop_order cats =
     concat (map (\<lambda>(cat, details). map (\<lambda>item. (cat, details, item)) (items details)) cats)"

section \<open>Transactions\<close>

text \<open>
  The draws of one iteration of the transaction loop that the quantities below depend on:
  the normal sample behind \<^verbatim>\<open>lognormal\<close> and the unit samples behind the \<^verbatim>\<open>choice\<close> and
  \<^verbatim>\<open>uniform\<close> calls. The customer, the store and the product are sampled from the tables
  by the library; the customer's tier and the product row are taken as given. The
  identifiers and the date of the row do not enter any computation and are left out.
\<close>

record txn_draws =
  qty_z :: real
  discount_u :: real
  delivery_time_u :: real
  delivery_distance_u :: real
  payment_u :: real
  spoilage_u :: real

record characteristics =
  qty :: int
  discount :: int
  delivery_time :: real
  delivery_distance :: real
  payment :: string

text \<open>Lines 244 to 263: the tier's branch, then the clamp of the quantity.\<close>

definition sample_characteristics :: "tier \<Rightarrow> txn_draws \<Rightarrow> py_error + characteristics" where
  "sample_characteristics t d =
     (let (raw_qty, disc, dtime, ddist, pay) =
            (case t of
               Metro \<Rightarrow>
                 (py_int (np_lognormal (12 / 10) (6 / 10) (qty_z d)),
                  np_choice [0, 5, 10, 15]
                    [6 / 10, 25 / 100, 10 / 100, 5 / 100] (discount_u d),
                  np_uniform (5 / 10) 3 (delivery_time_u d),
                  np_uniform 1 15 (delivery_distance_u d),
                  np_choice [''UPI'', ''Card'', ''Wallet'', ''COD'']
                    [4 / 10, 35 / 100, 2 / 10, 5 / 100] (payment_u d))
             | Tier2 \<Rightarrow>
                 (py_int (np_lognormal (9 / 10) (6 / 10) (qty_z d)),
                  np_choice [0, 5, 10, 15, 20]
                    [4 / 10, 3 / 10, 15 / 100, 10 / 100, 5 / 100] (discount_u d),
                  np_uniform 2 8 (delivery_time_u d),
                  np_uniform 3 30 (delivery_distance_u d),
                  np_choice [''UPI'', ''Card'', ''Wallet'', ''COD'']
                    [35 / 100, 20 / 100, 15 / 100, 30 / 100] (payment_u d))
             | Tier3 \<Rightarrow>
                 (py_int (np_lognormal (7 / 10) (5 / 10) (qty_z d)),
                  np_choice [0, 5, 10, 15, 20]
                    [3 / 10, 25 / 100, 20 / 100, 15 / 100, 10 / 100] (discount_u d),
                  np_uniform 4 16 (delivery_time_u d),
                  np_uniform 5 60 (delivery_distance_u d),
                  np_choice [''UPI'', ''Card'', ''Wallet'', ''COD'']
                    [25 / 100, 10 / 100, 10 / 100, 55 / 100] (payment_u d)))
      in case disc of
           Inl e \<Rightarrow> Inl e
         | Inr discount_v \<Rightarrow>
             (case pay of
                Inl e \<Rightarrow> Inl e
              | Inr payment_v \<Rightarrow>
                  Inr \<lparr>qty = max 1 (min raw_qty 10),
                       discount = discount_v,
                       delivery_time = dtime,
                       delivery_distance = ddist,
                       payment = payment_v\<rparr>))"

text \<open>
  Lines 266 to 288, the financial derivation, on the unrounded values. The last argument
  is the unit sample behind the \<^verbatim>\<open>uniform\<close> call of the spoilage branch, which the script
  draws only when that branch is taken.
\<close>

record financials =
  unit_price :: real
  revenue :: real
  product_cost :: real
  logistics_cost :: real
  spoilage_cost :: real
  total_cost :: real
  margin :: real
  margin_pct :: real

definition logistics_cost_of :: "tier \<Rightarrow> real \<Rightarrow> real" where
  "logistics_cost_of t dist_km =
     (case t of
        Metro \<Rightarrow> dist_km * (25 / 10) + 15
      | Tier2 \<Rightarrow> dist_km * (35 / 10) + 25
      | Tier3 \<Rightarrow> dist_km * (45 / 10) + 35)"

definition spoilage_cost_of :: "tier \<Rightarrow> bool \<Rightarrow> real \<Rightarrow> real \<Rightarrow> real" where
  "spoilage_cost_of t perish pcost u =
     (if perish then
        (case t of
           Tier2 \<Rightarrow> pcost * np_uniform 0 (8 / 100) u
         | Tier3 \<Rightarrow> pcost * np_uniform 0 (15 / 100) u
         | Metro \<Rightarrow> 0)
      else 0)"

definition margin_pct_of :: "real \<Rightarrow> real \<Rightarrow> py_error + real" where
  "margin_pct_of m r =
     (if 0 < r then
        (case py_truediv m r of Inl e \<Rightarrow> Inl e | Inr q \<Rightarrow> Inr (q * 100))
      else Inr 0)"

definition derive_financials ::
  "tier \<Rightarrow> real \<Rightarrow> real \<Rightarrow> bool \<Rightarrow> int \<Rightarrow> int \<Rightarrow> real \<Rightarrow> real \<Rightarrow> py_error + financials" where
  "derive_financials t lp uc perish q disc dist_km u =
     (let unit_price_v = lp * (1 - of_int disc / 100);
          revenue_v = unit_price_v * of_int q;
          product_cost_v = uc * of_int q;
          logistics_cost_v = logistics_cost_of t dist_km;
          spoilage_cost_v = spoilage_cost_of t perish product_cost_v u;
          total_cost_v = product_cost_v + logistics_cost_v + spoilage_cost_v;
          margin_v = revenue_v - total_cost_v
      in case margin_pct_of margin_v revenue_v of
           Inl e \<Rightarrow> Inl e
         | Inr margin_pct_v \<Rightarrow>
             Inr \<lparr>unit_price = unit_price_v,
                  revenue = revenue_v,
                  product_cost = product_cost_v,
                  logistics_cost = logistics_cost_v,
                  spoilage_cost = spoilage_cost_v,
                  total_cost = total_cost_v,
                  margin = margin_v,
                  margin_pct = margin_pct_v\<rparr>)"

text \<open>
  Lines 295 to 316: the stored row. Every financial field is rounded on its own from the
  unrounded value.
\<close>

record transaction = financials +
  txn_product_id :: nat
  region_tier :: tier
  quantity :: int
  discount_pct :: int
  delivery_time_hours :: real
  delivery_distance_km :: real
  payment_method :: string
  txn_is_perishable :: bool

definition store_transaction ::
  "tier \<Rightarrow> product \<Rightarrow> characteristics \<Rightarrow> financials \<Rightarrow> transaction" where
  "store_transaction t p c f =
     \<lparr>unit_price = round2 (unit_price f),
      revenue = round2 (revenue f),
      product_cost = round2 (product_cost f),
      logistics_cost = round2 (logistics_cost f),
      spoilage_cost = round2 (spoilage_cost f),
      total_cost = round2 (total_cost f),
      margin = round2 (margin f),
      margin_pct = round2 (margin_pct f),
      txn_product_id = product_id p,
      region_tier = t,
      quantity = qty c,
      discount_pct = discount c,
      delivery_time_hours = round2 (delivery_time c),
      delivery_distance_km = round2 (delivery_distance c),
      payment_method = payment c,
      txn_is_perishable = is_perishable p\<rparr>"

definition financials_of :: "tier \<Rightarrow> product \<Rightarrow> characteristics \<Rightarrow> real \<Rightarrow> py_error + financials" where
  "financials_of t p c u =
     derive_financials t (list_price p) (unit_cost p) (is_perishable p)
       (qty c) (discount c) (delivery_distance c) u"

definition generate_transaction :: "tier \<Rightarrow> product \<Rightarrow> txn_draws \<Rightarrow> py_error + transaction" where
  "generate_transaction t p d =
     (case sample_characteristics t d of
        Inl e \<Rightarrow> Inl e
      | Inr c \<Rightarrow>
          (case financials_of t p c (spoilage_u d) of
             Inl e \<Rightarrow> Inl e
           | Inr f \<Rightarrow> Inr (store_transaction t p c f)))"

definition valid_draws :: "txn_draws \<Rightarrow> bool" where
  "valid_draws d \<longleftrightarrow>
     unit_sample (discount_u d) \<and> unit_sample (delivery_time_u d) \<and>
     unit_sample (delivery_distance_u d) \<and> unit_sample (payment_u d) \<and>
     unit_sample (spoilage_u d)"

section \<open>The margin-risk classifier stage\<close>

text \<open>
  Lines 673 to 726. The label of a store is 1 when its mean margin percentage is below 10.
  Splitting, scaling, fitting, predicting, reporting and plotting are the library's, and
  any of these calls can raise: \<^verbatim>\<open>train_test_split\<close> with \<^verbatim>\<open>stratify=y\<close> raises
  \<^verbatim>\<open>ValueError\<close> when a class has a single member, \<^verbatim>\<open>classification_report\<close> when the
  test fold holds one class only. The stage is modelled by the steps it completes, in
  order, and the exception that ends it, if any. What each call does on the data of the
  run is a parameter: \<open>raises s\<close> is the exception that step \<open>s\<close> raises, or \<open>None\<close>.
  Strings are kept as their UTF-8 bytes; the warning sign is E2 9A A0 and the check mark
  E2 9C 93.
\<close>

datatype stage_step =
    Train_test_split
  | Scale_features
  | Fit_random_forest
  | Predict
  | Print_classification_report
  | Rank_feature_importances
  | Print_feature_importances
  | Save_feature_importance_plot
  | Close_figure
  | Print_message string

definition high_risk :: "real \<Rightarrow> int" where
  "high_risk store_margin_pct = (if store_margin_pct < 10 then 1 else 0)"

text \<open>The body of the \<^verbatim>\<open>if\<close>, lines 689 to 723, statement by statement.\<close>

definition training_steps :: "stage_step list" where
  "training_steps =
     [Train_test_split,
      Scale_features,
      Fit_random_forest,
      Predict,
      Print_message (CHR 0x0A # ''  Classification Report:''),
      Print_classification_report,
      Rank_feature_importances,
      Print_message (CHR 0x0A # ''  Top Feature Importances:''),
      Print_feature_importances,
      Save_feature_importance_plot,
      Print_message (''     '' @ [CHR 0xE2, CHR 0x9C, CHR 0x93]
                     @ '' Saved: feature_importance_margin_risk.png''),
      Close_figure]"

definition warning_message :: string where
  "warning_message =
     ''  '' @ [CHR 0xE2, CHR 0x9A, CHR 0xA0] @ '' Insufficient class diversity for training''"

text \<open>Statements run in order; the first exception ends the run.\<close>

fun run_steps ::
  "(stage_step \<Rightarrow> py_error option) \<Rightarrow> stage_step list \<Rightarrow> stage_step list \<times> py_error option" where
  "run_steps raises [] = ([], None)"
| "run_steps raises (s # rest) =
     (case raises s of
        Some e \<Rightarrow> ([], Some e)
      | None \<Rightarrow> (case run_steps raises rest of (completed, err) \<Rightarrow> (s # completed, err)))"

definition margin_risk_stage ::
  "(stage_step \<Rightarrow> py_error option) \<Rightarrow> real list \<Rightarrow> stage_step list \<times> py_error option" where
  "margin_risk_stage raises store_margin_pcts =
     (let y = map high_risk store_margin_pcts
      in if 1 < length (remdups y) then run_steps raises training_steps
         else ([Print_message warning_message], None))"

text \<open>
  One behaviour of the library, used below as a concrete input: the stratified split
  raises \<^verbatim>\<open>ValueError\<close> when some class of \<open>y\<close> has fewer than two members, and no other
  call raises.
\<close>

definition stratify_raises :: "int list \<Rightarrow> stage_step \<Rightarrow> py_error option" where
  "stratify_raises y s =
     (if s = Train_test_split \<and> list_ex (\<lambda>c. count_list y c < 2) y then Some ValueError
      else None)"

section \<open>Naming the customer segments\<close>

text \<open>
  Lines 831 to 858. The profile table has one row per cluster, rounded to two decimals
  and indexed by the cluster number, so a list whose position is the cluster number.
  \<^verbatim>\<open>idxmax\<close> and \<^verbatim>\<open>idxmin\<close> give the first position of the largest and of the smallest
  entry and raise \<^verbatim>\<open>ValueError\<close> on an empty column. The dictionary display stores its
  three entries from left to right, a later entry for a key replacing an earlier one.
\<close>

record cluster_profile =
  customer_count :: int
  avg_purchases :: real
  avg_revenue :: real
  avg_margin :: real
  avg_age :: real
  avg_income_code :: real
  avg_digital_score :: real

definition idxmax :: "real list \<Rightarrow> py_error + nat" where
  "idxmax xs =
     (if xs = [] then Inl ValueError
      else Inr (length (takeWhile (\<lambda>x. x \<noteq> Max (set xs)) xs)))"

definition idxmin :: "real list \<Rightarrow> py_error + nat" where
  "idxmin xs =
     (if xs = [] then Inl ValueError
      else Inr (length (takeWhile (\<lambda>x. x \<noteq> Min (set xs)) xs)))"

definition optimal_k :: nat where
  "optimal_k = 4"

definition cluster_names :: "cluster_profile list \<Rightarrow> py_error + (nat \<rightharpoonup> string)" where
  "cluster_names cluster_profiles =
     (case idxmax (map avg_revenue cluster_profiles) of
        Inl e \<Rightarrow> Inl e
      | Inr k1 \<Rightarrow>
     (case idxmax (map avg_purchases cluster_profiles) of
        Inl e \<Rightarrow> Inl e
      | Inr k2 \<Rightarrow>
     (case idxmin (map avg_revenue cluster_profiles) of
        Inl e \<Rightarrow> Inl e
      | Inr k3 \<Rightarrow>
          (let names = [k1 \<mapsto> ''High Value'', k2 \<mapsto> ''Frequent Buyers'',
                        k3 \<mapsto> ''Low Engagement''];
               remaining = filter (\<lambda>i. names i = None) [0..<optimal_k]
           in Inr (if remaining \<noteq> [] then names(hd remaining \<mapsto> ''Moderate'')
                   else names)))))"

text \<open>
  Line 858: a customer's segment name is the dictionary's entry for the customer's
  cluster, and missing (\<open>None\<close>) when the dictionary has no entry for it.
\<close>

definition cluster_name_of :: "cluster_profile list \<Rightarrow> nat \<Rightarrow> py_error + string option" where
  "cluster_name_of cluster_profiles cluster =
     (case cluster_names cluster_profiles of
        Inl e \<Rightarrow> Inl e
      | Inr names \<Rightarrow> Inr (names cluster))"

section \<open>A worked transaction\<close>

text \<open>
  A Tier 2 sale of one litre of milk, used below as a concrete input. The product row is
  one the product generator can emit (cost 80.00 and a margin near 20.1 per cent in the
  Fresh Produce ranges). The draws give quantity 1, a discount of 5, a delivery distance
  of 4.0012 km and a spoilage fraction of 0.02505.
\<close>

definition rounding_example_product :: product where
  "rounding_example_product =
     \<lparr>product_id = 9, product_name = ''Milk 1L'', category = ''Fresh Produce'',
      unit_cost = 80, list_price = 10012 / 100, target_margin_pct = 2010 / 100,
      is_perishable = True, avg_shelf_life_days = 3\<rparr>"

definition rounding_example_draws :: txn_draws where
  "rounding_example_draws =
     \<lparr>qty_z = - (3 / 2), discount_u = 1 / 2, delivery_time_u = 1 / 2,
      delivery_distance_u = 10012 / 270000, payment_u = 1 / 10,
      spoilage_u = 313125 / 1000000\<rparr>"

definition rounding_example_row :: transaction where
  "rounding_example_row =
     \<lparr>unit_price = 9511 / 100, revenue = 9511 / 100, product_cost = 80,
      logistics_cost = 39, spoilage_cost = 2, total_cost = 12101 / 100,
      margin = - (2589 / 100), margin_pct = - (2722 / 100),
      txn_product_id = 9, region_tier = Tier2, quantity = 1, discount_pct = 5,
      delivery_time_hours = 5, delivery_distance_km = 4, payment_method = ''UPI'',
      txn_is_perishable = True\<rparr>"

section \<open>A profile table\<close>

text \<open>
  Four cluster profiles with distinct average revenues and distinct average purchase
  counts, in which cluster 0 has both the largest average revenue and the largest average
  purchase count.
\<close>

definition naming_example_profiles :: "cluster_profile list" where
  "naming_example_profiles =
     [\<lparr>customer_count = 900, avg_purchases = 5, avg_revenue = 1000, avg_margin = 120,
       avg_age = 33, avg_income_code = 4, avg_digital_score = 7\<rparr>,
      \<lparr>customer_count = 4100, avg_purchases = 2, avg_revenue = 300, avg_margin = 20,
       avg_age = 35, avg_income_code = 3, avg_digital_score = 6\<rparr>,
      \<lparr>customer_count = 3000, avg_purchases = 3, avg_revenue = 500, avg_margin = 50,
       avg_age = 31, avg_income_code = 3, avg_digital_score = 6\<rparr>,
      \<lparr>customer_count = 5200, avg_purchases = 1, avg_revenue = 100, avg_margin = - 30,
       avg_age = 38, avg_income_code = 2, avg_digital_score = 5\<rparr>]"

section \<open>Rounding\<close>

lemma round_half_even_near: "\<bar>of_int (round_half_even x) - x\<bar> \<le> 1 / 2"
  unfolding round_half_even_def Let_def by (auto split: if_splits)

lemma round2_near: "\<bar>round2 x - x\<bar> \<le> 1 / 200"
proof -
  have "\<bar>of_int (round_half_even (x * 100)) - x * 100\<bar> \<le> 1 / 2"
    by (rule round_half_even_near)
  then show ?thesis
    unfolding round2_def by (simp add: field_simps abs_le_iff)
qed

lemma round2_zero: "round2 0 = 0"
  by (simp add: round2_def round_half_even_def)

section \<open>The end-to-end scenario\<close>

text \<open>
  C3. With list price 100, discount 10, quantity 2, unit cost 40, tier Metro, delivery
  distance 10 and a non-perishable product, the derivation gives unit price 90, revenue
  180, product cost 80, logistics cost 40, spoilage cost 0, total cost 120, margin 60,
  and a margin percentage of 100/3, stored as 33.33.
\<close>

theorem scenario_metro_financials:
  "derive_financials Metro 100 40 False 2 10 10 u =
     Inr \<lparr>unit_price = 90, revenue = 180, product_cost = 80, logistics_cost = 40,
          spoilage_cost = 0, total_cost = 120, margin = 60, margin_pct = 100 / 3\<rparr>
   \<and> round2 (100 / 3) = 3333 / 100"
  by (simp add: derive_financials_def logistics_cost_of_def spoilage_cost_of_def
      margin_pct_of_def py_truediv_def round2_def round_half_even_def Let_def)

section \<open>The sampler and the generated row\<close>

lemma searchsorted_right_bound:
  "acc \<le> u \<Longrightarrow> u < acc + sum_list p \<Longrightarrow> searchsorted_right p acc u < length p"
  by (induction p arbitrary: acc) (auto simp: add.assoc)

lemma np_choice_in_set: "np_choice a p u = Inr x \<Longrightarrow> x \<in> set a"
  by (auto simp: np_choice_def Let_def split: if_splits)

lemma np_choice_total:
  "length a = length p \<Longrightarrow> sum_list p = 1 \<Longrightarrow> unit_sample u \<Longrightarrow> \<exists>x. np_choice a p u = Inr x"
  using searchsorted_right_bound [of 0 u p] by (simp add: np_choice_def Let_def unit_sample_def)

lemma sample_characteristics_bounds:
  assumes "sample_characteristics t d = Inr c"
  shows "1 \<le> qty c" "qty c \<le> 10" "discount c \<in> {0, 5, 10, 15, 20}"
    "t = Metro \<Longrightarrow> discount c \<in> {0, 5, 10, 15}"
  using assms
  by (cases t; auto simp: sample_characteristics_def Let_def split: sum.splits dest!: np_choice_in_set)+

lemma sample_characteristics_total:
  assumes "unit_sample (discount_u d)" "unit_sample (payment_u d)"
  shows "\<exists>c. sample_characteristics t d = Inr c"
proof -
  have u: "unit_sample (discount_u d)" "unit_sample (payment_u d)" using assms by simp_all
  show ?thesis
  proof (cases t)
    case Metro
    obtain x where x: "np_choice [0, 5, 10, 15::int] [6 / 10, 25 / 100, 10 / 100, 5 / 100] (discount_u d) = Inr x"
      using np_choice_total [OF _ _ u(1), of "[0, 5, 10, 15::int]" "[6 / 10, 25 / 100, 10 / 100, 5 / 100]"] by auto
    obtain y where y: "np_choice [''UPI'', ''Card'', ''Wallet'', ''COD''] [4 / 10, 35 / 100, 2 / 10, 5 / 100] (payment_u d) = Inr y"
      using np_choice_total [OF _ _ u(2), of "[''UPI'', ''Card'', ''Wallet'', ''COD'']" "[4 / 10, 35 / 100, 2 / 10, 5 / 100]"] by auto
    show ?thesis using Metro x y by (simp add: sample_characteristics_def)
  next
    case Tier2
    obtain x where x: "np_choice [0, 5, 10, 15, 20::int] [4 / 10, 3 / 10, 15 / 100, 10 / 100, 5 / 100] (discount_u d) = Inr x"
      using np_choice_total [OF _ _ u(1), of "[0, 5, 10, 15, 20::int]" "[4 / 10, 3 / 10, 15 / 100, 10 / 100, 5 / 100]"] by auto
    obtain y where y: "np_choice [''UPI'', ''Card'', ''Wallet'', ''COD''] [35 / 100, 20 / 100, 15 / 100, 30 / 100] (payment_u d) = Inr y"
      using np_choice_total [OF _ _ u(2), of "[''UPI'', ''Card'', ''Wallet'', ''COD'']" "[35 / 100, 20 / 100, 15 / 100, 30 / 100]"] by auto
    show ?thesis using Tier2 x y by (simp add: sample_characteristics_def)
  next
    case Tier3
    obtain x where x: "np_choice [0, 5, 10, 15, 20::int] [3 / 10, 25 / 100, 20 / 100, 15 / 100, 10 / 100] (discount_u d) = Inr x"
      using np_choice_total [OF _ _ u(1), of "[0, 5, 10, 15, 20::int]" "[3 / 10, 25 / 100, 20 / 100, 15 / 100, 10 / 100]"] by auto
    obtain y where y: "np_choice [''UPI'', ''Card'', ''Wallet'', ''COD''] [25 / 100, 10 / 100, 10 / 100, 55 / 100] (payment_u d) = Inr y"
      using np_choice_total [OF _ _ u(2), of "[''UPI'', ''Card'', ''Wallet'', ''COD'']" "[25 / 100, 10 / 100, 10 / 100, 55 / 100]"] by auto
    show ?thesis using Tier3 x y by (simp add: sample_characteristics_def)
  qed
qed

lemma derive_financials_total:
  "\<exists>f. derive_financials t lp uc perish q disc dist_km u = Inr f"
  by (simp add: derive_financials_def margin_pct_of_def py_truediv_def Let_def)

lemma generate_transaction_Inr:
  "generate_transaction t p d = Inr row \<longleftrightarrow>
     (\<exists>c f. sample_characteristics t d = Inr c \<and> financials_of t p c (spoilage_u d) = Inr f
        \<and> row = store_transaction t p c f)"
  by (auto simp: generate_transaction_def split: sum.splits)

lemma generate_transaction_total:
  assumes "valid_draws d"
  shows "\<exists>row. generate_transaction t p d = Inr row"
proof -
  from assms obtain c where c: "sample_characteristics t d = Inr c"
    using sample_characteristics_total [of d t] by (auto simp: valid_draws_def)
  obtain f where "financials_of t p c (spoilage_u d) = Inr f"
    using derive_financials_total unfolding financials_of_def by blast
  with c show ?thesis by (simp add: generate_transaction_def)
qed

lemma np_uniform_range:
  assumes "unit_sample u" "low \<le> high"
  shows "low \<le> np_uniform low high u" "np_uniform low high u \<le> high"
proof -
  have "0 \<le> (high - low) * u" using assms by (simp add: unit_sample_def)
  then show "low \<le> np_uniform low high u" by (simp add: np_uniform_def)
  have "(high - low) * u \<le> (high - low) * 1"
    using assms by (intro mult_left_mono) (simp_all add: unit_sample_def)
  then show "np_uniform low high u \<le> high" by (simp add: np_uniform_def)
qed

lemma ex_sample: "sample_characteristics Tier2 rounding_example_draws =
   Inr \<lparr>qty = 1, discount = 5, delivery_time = 5, delivery_distance = 40012 / 10000, payment = ''UPI''\<rparr>"
  by (simp add: sample_characteristics_def rounding_example_draws_def np_choice_def
      np_lognormal_def np_uniform_def py_int_def)

lemma ex_fin: "financials_of Tier2 rounding_example_product
    \<lparr>qty = 1, discount = 5, delivery_time = 5, delivery_distance = 40012 / 10000, payment = ''UPI''\<rparr>
    (spoilage_u rounding_example_draws) =
   Inr \<lparr>unit_price = 95114 / 1000, revenue = 95114 / 1000, product_cost = 80,
        logistics_cost = 390042 / 10000, spoilage_cost = 2004 / 1000, total_cost = 1210082 / 10000,
        margin = - (258942 / 10000), margin_pct = - (258942 / 10000) / (95114 / 1000) * 100\<rparr>"
  by (simp add: financials_of_def derive_financials_def rounding_example_product_def
      rounding_example_draws_def logistics_cost_of_def spoilage_cost_of_def margin_pct_of_def
      py_truediv_def np_uniform_def Let_def)

lemma rounding_example_generated:
  "generate_transaction Tier2 rounding_example_product rounding_example_draws =
     Inr rounding_example_row"
  unfolding generate_transaction_def ex_sample
  apply (simp only: ex_fin sum.case)
  apply (simp add: store_transaction_def rounding_example_row_def rounding_example_product_def
      round2_def round_half_even_def Let_def)
  done

lemma rounding_example_valid: "valid_draws rounding_example_draws"
  by (simp add: valid_draws_def unit_sample_def rounding_example_draws_def)

section \<open>Stored fields and rounding\<close>

text \<open>
  C2, as stated, fails: each stored field is rounded on its own from the unrounded value,
  so the stored margin need not be the rounded difference of the stored revenue and the
  stored total cost, nor the stored total cost the rounded sum of the stored cost parts.
  In the worked transaction the stored margin is -25.89 while the stored revenue minus the
  stored total cost is -25.90, and the stored total cost is 121.01 while the stored parts
  add up to 121.00.
\<close>

theorem stored_fields_not_recomputable:
  "generate_transaction Tier2 rounding_example_product rounding_example_draws =
     Inr rounding_example_row
   \<and> margin rounding_example_row \<noteq>
       round2 (revenue rounding_example_row - total_cost rounding_example_row)
   \<and> total_cost rounding_example_row \<noteq>
       round2 (product_cost rounding_example_row + logistics_cost rounding_example_row
               + spoilage_cost rounding_example_row)"
  using rounding_example_generated
  by (simp add: rounding_example_row_def round2_def round_half_even_def Let_def)

text \<open>
  C2, amended. For every generated transaction the stored margin is the revenue minus the
  total cost, rounded to two decimals, and the stored total cost is the sum of product,
  logistics and spoilage cost, rounded to two decimals, where revenue, total cost and the
  three cost parts are the unrounded values of the derivation: the revenue is list price
  times one minus discount over 100 times quantity, the product cost unit cost times
  quantity, and the total cost and the margin are the sum and the difference the
  derivation forms of them.
\<close>

theorem stored_margin_and_total_cost:
  assumes "generate_transaction t p d = Inr row"
  shows "\<exists>c f. sample_characteristics t d = Inr c
           \<and> financials_of t p c (spoilage_u d) = Inr f
           \<and> row = store_transaction t p c f
           \<and> revenue f = list_price p * (1 - of_int (discount c) / 100) * of_int (qty c)
           \<and> product_cost f = unit_cost p * of_int (qty c)
           \<and> logistics_cost f = logistics_cost_of t (delivery_distance c)
           \<and> spoilage_cost f =
               spoilage_cost_of t (is_perishable p) (product_cost f) (spoilage_u d)
           \<and> total_cost f = product_cost f + logistics_cost f + spoilage_cost f
           \<and> margin f = revenue f - total_cost f
           \<and> revenue row = round2 (revenue f)
           \<and> product_cost row = round2 (product_cost f)
           \<and> logistics_cost row = round2 (logistics_cost f)
           \<and> spoilage_cost row = round2 (spoilage_cost f)
           \<and> total_cost row = round2 (product_cost f + logistics_cost f + spoilage_cost f)
           \<and> margin row = round2 (revenue f - total_cost f)"
proof -
  from assms obtain c f where c: "sample_characteristics t d = Inr c"
    and f: "financials_of t p c (spoilage_u d) = Inr f"
    and row: "row = store_transaction t p c f"
    by (auto simp: generate_transaction_Inr)
  from f have rev: "revenue f = list_price p * (1 - of_int (discount c) / 100) * of_int (qty c)"
    and pc: "product_cost f = unit_cost p * of_int (qty c)"
    and lc: "logistics_cost f = logistics_cost_of t (delivery_distance c)"
    and sc: "spoilage_cost f =
        spoilage_cost_of t (is_perishable p) (product_cost f) (spoilage_u d)"
    and tc: "total_cost f = product_cost f + logistics_cost f + spoilage_cost f"
    and m: "margin f = revenue f - total_cost f"
    by (auto simp: financials_of_def derive_financials_def Let_def split: sum.splits)
  have stored: "revenue row = round2 (revenue f)" "product_cost row = round2 (product_cost f)"
    "logistics_cost row = round2 (logistics_cost f)"
    "spoilage_cost row = round2 (spoilage_cost f)"
    by (simp_all add: row store_transaction_def)
  have 1: "total_cost row = round2 (product_cost f + logistics_cost f + spoilage_cost f)"
    using tc by (simp add: row store_transaction_def)
  have 2: "margin row = round2 (revenue f - total_cost f)"
    using m by (simp add: row store_transaction_def)
  from c f row rev pc lc sc tc m stored 1 2 show ?thesis
    by blast
qed

theorem stored_margin_and_total_cost_witness:
  "generate_transaction Tier2 rounding_example_product rounding_example_draws =
     Inr rounding_example_row
   \<and> margin rounding_example_row = round2 (95114 / 1000 - 1210082 / 10000)
   \<and> total_cost rounding_example_row = round2 (80 + 390042 / 10000 + 2004 / 1000)"
proof -
  from stored_margin_and_total_cost [OF rounding_example_generated]
  obtain c f where c: "sample_characteristics Tier2 rounding_example_draws = Inr c"
    and f: "financials_of Tier2 rounding_example_product c (spoilage_u rounding_example_draws)
        = Inr f"
    and tc: "total_cost rounding_example_row =
        round2 (product_cost f + logistics_cost f + spoilage_cost f)"
    and m: "margin rounding_example_row = round2 (revenue f - total_cost f)"
    by blast
  from c have "c = \<lparr>qty = 1, discount = 5, delivery_time = 5,
      delivery_distance = 40012 / 10000, payment = ''UPI''\<rparr>"
    by (simp only: ex_sample sum.inject)
  with f have "Inr f = (Inr \<lparr>unit_price = 95114 / 1000, revenue = 95114 / 1000,
      product_cost = 80, logistics_cost = 390042 / 10000, spoilage_cost = 2004 / 1000,
      total_cost = 1210082 / 10000, margin = - (258942 / 10000),
      margin_pct = - (258942 / 10000) / (95114 / 1000) * 100\<rparr> :: py_error + financials)"
    by (simp only: ex_fin)
  then have "revenue f = 95114 / 1000" "total_cost f = 1210082 / 10000"
    "product_cost f = 80" "logistics_cost f = 390042 / 10000" "spoilage_cost f = 2004 / 1000"
    by auto
  with tc m rounding_example_generated show ?thesis
    by simp
qed

section \<open>The margin percentage\<close>

text \<open>
  C4. The derivation never raises: the margin percentage is margin / revenue * 100 when
  the revenue is positive and 0 otherwise, the division being reached only under the
  guard. With a positive list price, a discount of at most 20 and a quantity of at least
  1 the revenue is positive, so the branch for a revenue of 0 is not taken.
\<close>

theorem margin_pct_division_guarded:
  "\<exists>f. derive_financials t lp uc perish q disc dist_km u = Inr f
     \<and> margin_pct f = (if 0 < revenue f then margin f / revenue f * 100 else 0)
     \<and> (0 < lp \<and> disc \<le> 20 \<and> 1 \<le> q \<longrightarrow> 0 < revenue f)"
proof -
  have pos: "0 < lp * (1 - of_int disc / 100) * of_int q" if "0 < lp" "disc \<le> 20" "1 \<le> q"
  proof -
    have "(of_int disc :: real) \<le> 20" using that(2) by linarith
    then have "0 < 1 - (of_int disc :: real) / 100" by simp
    moreover have "0 < (of_int q :: real)" using that(3) by simp
    ultimately show ?thesis using that(1) by simp
  qed
  have "\<exists>f. derive_financials t lp uc perish q disc dist_km u = Inr f
     \<and> margin_pct f = (if 0 < revenue f then margin f / revenue f * 100 else 0)
     \<and> revenue f = lp * (1 - of_int disc / 100) * of_int q"
    by (simp add: derive_financials_def margin_pct_of_def py_truediv_def Let_def)
  then obtain f where "derive_financials t lp uc perish q disc dist_km u = Inr f"
    and "margin_pct f = (if 0 < revenue f then margin f / revenue f * 100 else 0)"
    and "revenue f = lp * (1 - of_int disc / 100) * of_int q"
    by blast
  with pos show ?thesis
    by metis
qed

theorem margin_pct_division_guarded_witness:
  "0 < (100::real) \<and> (10::int) \<le> 20 \<and> (1::int) \<le> 2
   \<and> (\<exists>f. derive_financials Metro 100 40 False 2 10 10 0 = Inr f
          \<and> 0 < revenue f \<and> margin_pct f = margin f / revenue f * 100)"
  using margin_pct_division_guarded [of Metro 100 40 False 2 10 10 0]
  by auto

section \<open>Spoilage\<close>

text \<open>
  C5. For every generated transaction: a nonzero spoilage cost, unrounded or stored,
  occurs only for a perishable product in Tier 2 or Tier 3; the spoilage cost is 0 for
  Metro and for non-perishable products; otherwise it is the product cost times the
  uniform draw, which lies in [0, 0.08] for Tier 2 and in [0, 0.15] for Tier 3.
\<close>

theorem spoilage_cost_rule:
  assumes "generate_transaction t p d = Inr row"
  shows "\<exists>c f. sample_characteristics t d = Inr c
           \<and> financials_of t p c (spoilage_u d) = Inr f
           \<and> row = store_transaction t p c f
           \<and> (spoilage_cost f \<noteq> 0 \<longrightarrow> is_perishable p \<and> (t = Tier2 \<or> t = Tier3))
           \<and> (spoilage_cost row \<noteq> 0 \<longrightarrow>
                txn_is_perishable row \<and> (region_tier row = Tier2 \<or> region_tier row = Tier3))
           \<and> (t = Metro \<or> \<not> is_perishable p \<longrightarrow> spoilage_cost f = 0 \<and> spoilage_cost row = 0)
           \<and> (is_perishable p \<and> t = Tier2 \<longrightarrow>
                spoilage_cost f = product_cost f * np_uniform 0 (8 / 100) (spoilage_u d))
           \<and> (is_perishable p \<and> t = Tier3 \<longrightarrow>
                spoilage_cost f = product_cost f * np_uniform 0 (15 / 100) (spoilage_u d))
           \<and> (unit_sample (spoilage_u d) \<longrightarrow>
                0 \<le> np_uniform 0 (8 / 100) (spoilage_u d)
                \<and> np_uniform 0 (8 / 100) (spoilage_u d) \<le> 8 / 100
                \<and> 0 \<le> np_uniform 0 (15 / 100) (spoilage_u d)
                \<and> np_uniform 0 (15 / 100) (spoilage_u d) \<le> 15 / 100)"
proof -
  from assms obtain c f where c: "sample_characteristics t d = Inr c"
    and f: "financials_of t p c (spoilage_u d) = Inr f"
    and row: "row = store_transaction t p c f"
    by (auto simp: generate_transaction_Inr)
  from f have sc: "spoilage_cost f = spoilage_cost_of t (is_perishable p) (product_cost f) (spoilage_u d)"
    by (auto simp: financials_of_def derive_financials_def Let_def split: sum.splits)
  have 1: "spoilage_cost f \<noteq> 0 \<longrightarrow> is_perishable p \<and> (t = Tier2 \<or> t = Tier3)"
    unfolding sc by (cases t) (auto simp: spoilage_cost_of_def)
  have 3: "t = Metro \<or> \<not> is_perishable p \<longrightarrow> spoilage_cost f = 0 \<and> spoilage_cost row = 0"
    unfolding sc row by (auto simp: spoilage_cost_of_def store_transaction_def sc round2_zero)
  have 2: "spoilage_cost row \<noteq> 0 \<longrightarrow>
        txn_is_perishable row \<and> (region_tier row = Tier2 \<or> region_tier row = Tier3)"
    using 3 unfolding row by (cases t) (auto simp: store_transaction_def)
  have 4: "is_perishable p \<and> t = Tier2 \<longrightarrow>
        spoilage_cost f = product_cost f * np_uniform 0 (8 / 100) (spoilage_u d)"
    unfolding sc by (simp add: spoilage_cost_of_def)
  have 5: "is_perishable p \<and> t = Tier3 \<longrightarrow>
        spoilage_cost f = product_cost f * np_uniform 0 (15 / 100) (spoilage_u d)"
    unfolding sc by (simp add: spoilage_cost_of_def)
  have 6: "unit_sample (spoilage_u d) \<longrightarrow>
                0 \<le> np_uniform 0 (8 / 100) (spoilage_u d)
                \<and> np_uniform 0 (8 / 100) (spoilage_u d) \<le> 8 / 100
                \<and> 0 \<le> np_uniform 0 (15 / 100) (spoilage_u d)
                \<and> np_uniform 0 (15 / 100) (spoilage_u d) \<le> 15 / 100"
    using np_uniform_range [of "spoilage_u d" 0 "8 / 100"]
      np_uniform_range [of "spoilage_u d" 0 "15 / 100"] by simp
  from c f row 1 2 3 4 5 6 show ?thesis by blast
qed

theorem spoilage_cost_rule_witness:
  "generate_transaction Tier2 rounding_example_product rounding_example_draws =
     Inr rounding_example_row
   \<and> spoilage_cost rounding_example_row \<noteq> 0
   \<and> txn_is_perishable rounding_example_row
   \<and> region_tier rounding_example_row = Tier2
   \<and> (\<exists>row. generate_transaction Metro rounding_example_product rounding_example_draws = Inr row
          \<and> spoilage_cost row = 0)"
proof -
  obtain row where row: "generate_transaction Metro rounding_example_product rounding_example_draws = Inr row"
    using generate_transaction_total [OF rounding_example_valid] by blast
  have "spoilage_cost row = 0"
    using spoilage_cost_rule [OF row] by blast
  moreover have "spoilage_cost rounding_example_row \<noteq> 0 \<longrightarrow>
      txn_is_perishable rounding_example_row
      \<and> (region_tier rounding_example_row = Tier2 \<or> region_tier rounding_example_row = Tier3)"
    using spoilage_cost_rule [OF rounding_example_generated] by blast
  moreover have "spoilage_cost rounding_example_row \<noteq> 0"
    "region_tier rounding_example_row = Tier2"
    by (simp_all add: rounding_example_row_def)
  ultimately show ?thesis
    using row rounding_example_generated by blast
qed

section \<open>Quantity and discount\<close>

text \<open>
  C6. For every generated transaction, whatever the tier and the log-normal draw, the
  stored quantity lies between 1 and 10 and the stored discount is one of 0, 5, 10, 15
  and 20; and every choice of unit samples does generate a transaction.
\<close>

theorem quantity_and_discount_ranges:
  "(generate_transaction t p d = Inr row \<longrightarrow>
      1 \<le> quantity row \<and> quantity row \<le> 10 \<and> discount_pct row \<in> {0, 5, 10, 15, 20})
   \<and> (valid_draws d \<longrightarrow> (\<exists>r. generate_transaction t p d = Inr r))"
proof -
  have "1 \<le> quantity row \<and> quantity row \<le> 10 \<and> discount_pct row \<in> {0, 5, 10, 15, 20}"
    if "generate_transaction t p d = Inr row"
  proof -
    from that obtain c f where c: "sample_characteristics t d = Inr c"
      and row: "row = store_transaction t p c f"
      by (auto simp: generate_transaction_Inr)
    show ?thesis
      using sample_characteristics_bounds(1-3) [OF c] unfolding row
      by (simp add: store_transaction_def)
  qed
  then show ?thesis
    using generate_transaction_total by blast
qed

theorem quantity_and_discount_ranges_witness:
  "valid_draws rounding_example_draws
   \<and> generate_transaction Tier2 rounding_example_product rounding_example_draws =
       Inr rounding_example_row
   \<and> 1 \<le> quantity rounding_example_row \<and> quantity rounding_example_row \<le> 10
   \<and> discount_pct rounding_example_row \<in> {0, 5, 10, 15, 20}"
  using quantity_and_discount_ranges
    [of Tier2 rounding_example_product rounding_example_draws rounding_example_row]
    rounding_example_generated rounding_example_valid
  by blast

section \<open>The discount of a Metro transaction\<close>

lemma sample_discount_eq:
  assumes "sample_characteristics t d = Inr c"
  shows "(case t of
            Metro \<Rightarrow> np_choice [0, 5, 10, 15] [6 / 10, 25 / 100, 10 / 100, 5 / 100] (discount_u d)
          | Tier2 \<Rightarrow> np_choice [0, 5, 10, 15, 20]
                       [4 / 10, 3 / 10, 15 / 100, 10 / 100, 5 / 100] (discount_u d)
          | Tier3 \<Rightarrow> np_choice [0, 5, 10, 15, 20]
                       [3 / 10, 25 / 100, 20 / 100, 15 / 100, 10 / 100] (discount_u d))
         = Inr (discount c)"
  using assms
  by (cases t) (auto simp: sample_characteristics_def split: sum.splits)

lemma discount_reachable:
  assumes "unit_sample u"
    and "(case t of
            Metro \<Rightarrow> np_choice [0, 5, 10, 15] [6 / 10, 25 / 100, 10 / 100, 5 / 100] u
          | Tier2 \<Rightarrow> np_choice [0, 5, 10, 15, 20]
                       [4 / 10, 3 / 10, 15 / 100, 10 / 100, 5 / 100] u
          | Tier3 \<Rightarrow> np_choice [0, 5, 10, 15, 20]
                       [3 / 10, 25 / 100, 20 / 100, 15 / 100, 10 / 100] u)
         = Inr v"
  shows "\<exists>d r. valid_draws d \<and> generate_transaction t p d = Inr r \<and> discount_pct r = v"
proof -
  define d where "d = \<lparr>qty_z = 0, discount_u = u, delivery_time_u = 0,
    delivery_distance_u = 0, payment_u = 0, spoilage_u = 0\<rparr>"
  have v: "valid_draws d"
    using assms(1) by (simp add: d_def valid_draws_def unit_sample_def)
  then obtain r where r: "generate_transaction t p d = Inr r"
    using generate_transaction_total by blast
  then obtain c f where c: "sample_characteristics t d = Inr c"
    and row: "r = store_transaction t p c f"
    by (auto simp: generate_transaction_Inr)
  have du: "discount_u d = u" by (simp add: d_def)
  have "Inr (discount c) = (Inr v :: py_error + int)"
    using sample_discount_eq [OF c] assms(2) unfolding du by (rule trans [OF sym])
  then have "discount c = v" by simp
  then have "discount_pct r = v" by (simp add: row store_transaction_def)
  with v r show ?thesis by blast
qed

text \<open>
  C10. A Metro transaction's discount is one of 0, 5, 10 and 15, never 20, and each of
  the four occurs; for Tier 2 and Tier 3 each of 0, 5, 10, 15 and 20 occurs.
\<close>

theorem metro_discount_support:
  "(generate_transaction Metro p d = Inr row \<longrightarrow> discount_pct row \<in> {0, 5, 10, 15})
   \<and> (\<forall>v \<in> {0, 5, 10, 15}.
        \<exists>d r. valid_draws d \<and> generate_transaction Metro p d = Inr r \<and> discount_pct r = v)
   \<and> (\<forall>t \<in> {Tier2, Tier3}. \<forall>v \<in> {0, 5, 10, 15, 20}.
        \<exists>d r. valid_draws d \<and> generate_transaction t p d = Inr r \<and> discount_pct r = v)"
proof (intro conjI)
  show "generate_transaction Metro p d = Inr row \<longrightarrow> discount_pct row \<in> {0, 5, 10, 15}"
  proof
    assume "generate_transaction Metro p d = Inr row"
    then obtain c f where c: "sample_characteristics Metro d = Inr c"
      and row: "row = store_transaction Metro p c f"
      by (auto simp: generate_transaction_Inr)
    show "discount_pct row \<in> {0, 5, 10, 15}"
      using sample_characteristics_bounds(4) [OF c] unfolding row
      by (simp add: store_transaction_def)
  qed
next
  have m: "\<exists>d r. valid_draws d \<and> generate_transaction Metro p d = Inr r \<and> discount_pct r = v"
    if "v = 0 \<or> v = 5 \<or> v = 10 \<or> v = 15" for v
    using that
      discount_reachable [of 0 Metro 0 p] discount_reachable [of "7 / 10" Metro 5 p]
      discount_reachable [of "9 / 10" Metro 10 p] discount_reachable [of "99 / 100" Metro 15 p]
    by (auto simp: unit_sample_def np_choice_def)
  then show "\<forall>v \<in> {0, 5, 10, 15}.
        \<exists>d r. valid_draws d \<and> generate_transaction Metro p d = Inr r \<and> discount_pct r = v"
    by blast
next
  have t2: "\<exists>d r. valid_draws d \<and> generate_transaction Tier2 p d = Inr r \<and> discount_pct r = v"
    if "v = 0 \<or> v = 5 \<or> v = 10 \<or> v = 15 \<or> v = 20" for v
    using that
      discount_reachable [of 0 Tier2 0 p] discount_reachable [of "5 / 10" Tier2 5 p]
      discount_reachable [of "8 / 10" Tier2 10 p] discount_reachable [of "9 / 10" Tier2 15 p]
      discount_reachable [of "99 / 100" Tier2 20 p]
    by (auto simp: unit_sample_def np_choice_def)
  have t3: "\<exists>d r. valid_draws d \<and> generate_transaction Tier3 p d = Inr r \<and> discount_pct r = v"
    if "v = 0 \<or> v = 5 \<or> v = 10 \<or> v = 15 \<or> v = 20" for v
    using that
      discount_reachable [of 0 Tier3 0 p] discount_reachable [of "5 / 10" Tier3 5 p]
      discount_reachable [of "7 / 10" Tier3 10 p] discount_reachable [of "8 / 10" Tier3 15 p]
      discount_reachable [of "95 / 100" Tier3 20 p]
    by (auto simp: unit_sample_def np_choice_def)
  from t2 t3 show "\<forall>t \<in> {Tier2, Tier3}. \<forall>v \<in> {0, 5, 10, 15, 20}.
        \<exists>d r. valid_draws d \<and> generate_transaction t p d = Inr r \<and> discount_pct r = v"
    by blast
qed

theorem metro_discount_support_witness:
  "(\<exists>row. generate_transaction Metro rounding_example_product rounding_example_draws = Inr row
        \<and> discount_pct row \<in> {0, 5, 10, 15})
   \<and> (\<exists>d r. valid_draws d \<and> generate_transaction Tier2 rounding_example_product d = Inr r
        \<and> discount_pct r = 20)
   \<and> (\<exists>d r. valid_draws d \<and> generate_transaction Metro rounding_example_product d = Inr r
        \<and> discount_pct r = 15)"
proof -
  obtain row where row:
    "generate_transaction Metro rounding_example_product rounding_example_draws = Inr row"
    using generate_transaction_total [OF rounding_example_valid] by blast
  show ?thesis
    using metro_discount_support [of rounding_example_product rounding_example_draws row] row
    by blast
qed

section \<open>The product generator\<close>

lemma product_categories_ranges:
  "(cat, details) \<in> set product_categories \<Longrightarrow> ranges_ok details"
  by (auto simp: product_categories_def ranges_ok_def)

lemma items_per_category:
  "map (\<lambda>(cat, details). length (items details)) product_categories = [6, 6, 6, 6, 5, 5, 5]"
  by (simp add: product_categories_def)

lemma margin_draw_bounds:
  assumes "ranges_ok details" "unit_sample u2"
  shows "8 \<le> np_uniform (fst (margin_range details)) (snd (margin_range details)) u2"
    and "np_uniform (fst (margin_range details)) (snd (margin_range details)) u2 \<le> 45"
  using np_uniform_range [OF assms(2), of "fst (margin_range details)" "snd (margin_range details)"]
    assms(1) by (auto simp: ranges_ok_def)

lemma make_product_ok:
  assumes ok: "ranges_ok details" and u1: "unit_sample u1" and u2: "unit_sample u2"
  shows "\<exists>row. make_product prod_id cat details item u1 u2 u3 = Inr row
           \<and> unit_cost row < list_price row"
proof -
  define cost where "cost = np_uniform (fst (cost_range details)) (snd (cost_range details)) u1"
  define m where "m = np_uniform (fst (margin_range details)) (snd (margin_range details)) u2"
  define lp where "lp = cost / (1 - m / 100)"
  have c25: "25 \<le> cost"
    using np_uniform_range(1) [OF u1, of "fst (cost_range details)" "snd (cost_range details)"] ok
    by (simp add: cost_def ranges_ok_def)
  have m8: "8 \<le> m" and m45: "m \<le> 45"
    using margin_draw_bounds [OF ok u2] by (simp_all add: m_def)
  have den: "0 < 1 - m / 100" "1 - m / 100 \<le> 92 / 100"
    using m8 m45 by simp_all
  have "cost = lp * (1 - m / 100)"
    using den by (simp add: lp_def)
  also have "\<dots> \<le> lp * (92 / 100)"
  proof (rule mult_left_mono)
    show "1 - m / 100 \<le> 92 / 100" by (rule den)
    show "0 \<le> lp" using c25 den by (simp add: lp_def)
  qed
  finally have "cost + 2 \<le> lp"
    using c25 by simp
  moreover have "\<bar>round2 cost - cost\<bar> \<le> 1 / 200" "\<bar>round2 lp - lp\<bar> \<le> 1 / 200"
    by (rule round2_near)+
  ultimately have lt: "round2 cost < round2 lp"
    by linarith
  have "make_product prod_id cat details item u1 u2 u3 =
      Inr \<lparr>product_id = prod_id, product_name = item, category = cat,
           unit_cost = round2 cost, list_price = round2 lp, target_margin_pct = round2 m,
           is_perishable = perishable details,
           avg_shelf_life_days =
             (if perishable details then np_randint 1 7 u3 else np_randint 180 730 u3)\<rparr>"
    using den(1) by (simp add: make_product_def py_truediv_def cost_def m_def lp_def Let_def)
  with lt show ?thesis by simp
qed

lemma make_product_fields:
  assumes "make_product prod_id cat details item u1 u2 u3 = Inr row"
  shows "product_id row = prod_id" "product_name row = item" "category row = cat"
    "is_perishable row = perishable details"
  using assms by (auto simp: make_product_def Let_def split: sum.splits)

lemma items_loop_rows:
  assumes ok: "ranges_ok details" and rng: "\<forall>i. unit_sample (rng i)"
  shows "\<exists>new. items_loop rng cat details its (products_data, prod_id, pos) =
             Inr (products_data @ new, prod_id + length its, pos + 3 * length its)
           \<and> length new = length its
           \<and> (\<forall>i < length its.
                 make_product (prod_id + i) cat details (its ! i)
                   (rng (pos + 3 * i)) (rng (pos + 3 * i + 1)) (rng (pos + 3 * i + 2))
                 = Inr (new ! i))
           \<and> (\<forall>p \<in> set new. unit_cost p < list_price p)"
proof (induction its arbitrary: products_data prod_id pos)
  case Nil
  then show ?case by simp
next
  case (Cons item rest)
  obtain row where row: "make_product prod_id cat details item (rng pos) (rng (pos + 1))
      (rng (pos + 2)) = Inr row" and lt: "unit_cost row < list_price row"
    using make_product_ok [OF ok] rng by blast
  obtain new where new: "items_loop rng cat details rest (products_data @ [row], prod_id + 1, pos + 3) =
      Inr ((products_data @ [row]) @ new, prod_id + 1 + length rest, pos + 3 + 3 * length rest)"
    and len: "length new = length rest"
    and rows: "\<forall>i < length rest.
        make_product (prod_id + 1 + i) cat details (rest ! i)
          (rng (pos + 3 + 3 * i)) (rng (pos + 3 + 3 * i + 1)) (rng (pos + 3 + 3 * i + 2))
        = Inr (new ! i)"
    and all: "\<forall>p \<in> set new. unit_cost p < list_price p"
    using Cons.IH by blast
  show ?case
  proof (intro exI conjI)
    show "items_loop rng cat details (item # rest) (products_data, prod_id, pos) =
        Inr (products_data @ (row # new), prod_id + length (item # rest),
             pos + 3 * length (item # rest))"
      using row new by simp
    show "length (row # new) = length (item # rest)" using len by simp
    show "\<forall>p \<in> set (row # new). unit_cost p < list_price p" using lt all by simp
    show "\<forall>i < length (item # rest).
        make_product (prod_id + i) cat details ((item # rest) ! i)
          (rng (pos + 3 * i)) (rng (pos + 3 * i + 1)) (rng (pos + 3 * i + 2))
        = Inr ((row # new) ! i)"
    proof (intro allI impI)
      fix i assume i: "i < length (item # rest)"
      show "make_product (prod_id + i) cat details ((item # rest) ! i)
          (rng (pos + 3 * i)) (rng (pos + 3 * i + 1)) (rng (pos + 3 * i + 2))
        = Inr ((row # new) ! i)"
      proof (cases i)
        case 0
        then show ?thesis using row by simp
      next
        case (Suc j)
        with i have j: "j < length rest" by simp
        have e: "prod_id + i = prod_id + 1 + j" "pos + 3 * i = pos + 3 + 3 * j"
          using Suc by simp_all
        have n: "(item # rest) ! i = rest ! j" "(row # new) ! i = new ! j"
          using Suc by simp_all
        from rows j have "make_product (prod_id + 1 + j) cat details (rest ! j)
            (rng (pos + 3 + 3 * j)) (rng (pos + 3 + 3 * j + 1)) (rng (pos + 3 + 3 * j + 2))
          = Inr (new ! j)"
          by blast
        then show ?thesis by (simp only: e n)
      qed
    qed
  qed
qed

lemma categories_loop_rows:
  assumes rng: "\<forall>i. unit_sample (rng i)"
  shows "(\<forall>(cat, details) \<in> set cats. ranges_ok details) \<Longrightarrow>
         \<exists>new. categories_loop rng cats (products_data, prod_id, pos) =
             Inr (products_data @ new, prod_id + length (loop_order cats),
                  pos + 3 * length (loop_order cats))
           \<and> length new = length (loop_order cats)
           \<and> (\<forall>i < length (loop_order cats).
                 case loop_order cats ! i of (cat, details, item) \<Rightarrow>
                   make_product (prod_id + i) cat details item
                     (rng (pos + 3 * i)) (rng (pos + 3 * i + 1)) (rng (pos + 3 * i + 2))
                   = Inr (new ! i))
           \<and> (\<forall>p \<in> set new. unit_cost p < list_price p)"
proof (induction cats arbitrary: products_data prod_id pos)
  case Nil
  then show ?case by (simp add: loop_order_def)
next
  case (Cons cd rest)
  obtain cat details where cd: "cd = (cat, details)" by (cases cd)
  with Cons.prems have ok: "ranges_ok details" by simp
  let ?its = "items details"
  let ?n = "length ?its"
  let ?m = "length (loop_order rest)"
  have lo: "loop_order (cd # rest) = map (\<lambda>item. (cat, details, item)) ?its @ loop_order rest"
    by (simp add: loop_order_def cd)
  have len_lo: "length (loop_order ((cat, details) # rest)) = ?n + ?m"
    by (simp add: loop_order_def)
  from items_loop_rows [OF ok rng, of cat ?its products_data prod_id pos]
  obtain new1 where I1: "items_loop rng cat details ?its (products_data, prod_id, pos) =
      Inr (products_data @ new1, prod_id + ?n, pos + 3 * ?n)
    \<and> length new1 = ?n
    \<and> (\<forall>i < ?n. make_product (prod_id + i) cat details (?its ! i)
          (rng (pos + 3 * i)) (rng (pos + 3 * i + 1)) (rng (pos + 3 * i + 2)) = Inr (new1 ! i))
    \<and> (\<forall>p \<in> set new1. unit_cost p < list_price p)" ..
  note 1 = I1 [THEN conjunct1]
    and len1 = I1 [THEN conjunct2, THEN conjunct1]
    and rows1 = I1 [THEN conjunct2, THEN conjunct2, THEN conjunct1]
    and all1 = I1 [THEN conjunct2, THEN conjunct2, THEN conjunct2]
  from Cons.prems have "\<forall>(cat, details) \<in> set rest. ranges_ok details" by simp
  from Cons.IH [OF this, of "products_data @ new1" "prod_id + ?n" "pos + 3 * ?n"]
  obtain new2 where I2:
    "categories_loop rng rest (products_data @ new1, prod_id + ?n, pos + 3 * ?n) =
        Inr ((products_data @ new1) @ new2, prod_id + ?n + ?m, pos + 3 * ?n + 3 * ?m)
      \<and> length new2 = ?m
      \<and> (\<forall>i < ?m. case loop_order rest ! i of (cat, details, item) \<Rightarrow>
          make_product (prod_id + ?n + i) cat details item
            (rng (pos + 3 * ?n + 3 * i)) (rng (pos + 3 * ?n + 3 * i + 1))
            (rng (pos + 3 * ?n + 3 * i + 2)) = Inr (new2 ! i))
      \<and> (\<forall>p \<in> set new2. unit_cost p < list_price p)" ..
  note 2 = I2 [THEN conjunct1]
    and len2 = I2 [THEN conjunct2, THEN conjunct1]
    and rows2 = I2 [THEN conjunct2, THEN conjunct2, THEN conjunct1]
    and all2 = I2 [THEN conjunct2, THEN conjunct2, THEN conjunct2]
  show ?case
  proof (intro exI conjI)
    show "categories_loop rng (cd # rest) (products_data, prod_id, pos) =
        Inr (products_data @ (new1 @ new2), prod_id + length (loop_order (cd # rest)),
             pos + 3 * length (loop_order (cd # rest)))"
      using 1 2 by (simp add: cd len_lo algebra_simps)
    show "length (new1 @ new2) = length (loop_order (cd # rest))"
      using len1 len2 by (simp add: lo)
    show "\<forall>p \<in> set (new1 @ new2). unit_cost p < list_price p"
      using all1 all2 by auto
    show "\<forall>i < length (loop_order (cd # rest)).
        case loop_order (cd # rest) ! i of (cat, details, item) \<Rightarrow>
          make_product (prod_id + i) cat details item
            (rng (pos + 3 * i)) (rng (pos + 3 * i + 1)) (rng (pos + 3 * i + 2))
          = Inr ((new1 @ new2) ! i)"
    proof (intro allI impI)
      fix i assume i: "i < length (loop_order (cd # rest))"
      show "case loop_order (cd # rest) ! i of (cat, details, item) \<Rightarrow>
          make_product (prod_id + i) cat details item
            (rng (pos + 3 * i)) (rng (pos + 3 * i + 1)) (rng (pos + 3 * i + 2))
          = Inr ((new1 @ new2) ! i)"
      proof (cases "i < ?n")
        case True
        then have "loop_order (cd # rest) ! i = (cat, details, ?its ! i)"
          by (simp add: lo nth_append)
        moreover have "(new1 @ new2) ! i = new1 ! i"
          using True len1 by (simp add: nth_append)
        ultimately show ?thesis using rows1 [rule_format, OF True] by simp
      next
        case False
        define j where "j = i - ?n"
        have ij: "i = ?n + j" using False by (simp add: j_def)
        have j: "j < ?m" using i ij by (simp add: lo)
        have a: "loop_order (cd # rest) ! i = loop_order rest ! j"
          by (simp add: lo nth_append ij)
        have b: "(new1 @ new2) ! i = new2 ! j"
          using len1 by (simp add: nth_append ij)
        have c: "prod_id + i = prod_id + ?n + j" "pos + 3 * i = pos + 3 * ?n + 3 * j"
          by (simp_all add: ij)
        from rows2 [rule_format, OF j] show ?thesis unfolding a b c .
      qed
    qed
  qed
qed

lemma length_loop_order: "length (loop_order product_categories) = 39"
  by (simp add: loop_order_def product_categories_def)

lemma loop_order_names:
  "map (\<lambda>(cat, details, item). item) (loop_order cats) =
     concat (map (\<lambda>(cat, details). items details) cats)"
  by (induction cats) (simp_all add: loop_order_def comp_def case_prod_unfold)

lemma item_names_distinct:
  "distinct (concat (map (\<lambda>(cat, details). items details) product_categories))"
  unfolding product_categories_def by code_simp

lemma rounding_example_product_generated:
  "make_product 9 (fst (product_categories ! 1)) (snd (product_categories ! 1)) ''Milk 1L''
     (1 / 3) (2096 / 10000) (1 / 3) = Inr rounding_example_product"
  by (simp add: make_product_def product_categories_def py_truediv_def np_uniform_def
      np_randint_def round2_def round_half_even_def rounding_example_product_def Let_def)

text \<open>
  C7. For every category the margin range ends below 50, so the margin drawn is below 50
  and the denominator 1 - margin / 100 is positive: the division of the list price never
  raises and a product row is built, with no check in the generator.
\<close>

theorem list_price_division_safe:
  assumes "(cat, details) \<in> set product_categories" and "unit_sample u2"
  shows "snd (margin_range details) < 50
     \<and> np_uniform (fst (margin_range details)) (snd (margin_range details)) u2 < 50
     \<and> 0 < 1 - np_uniform (fst (margin_range details)) (snd (margin_range details)) u2 / 100
     \<and> (\<exists>row. make_product prod_id cat details item u1 u2 u3 = Inr row)"
proof -
  have ok: "ranges_ok details"
    using assms(1) by (rule product_categories_ranges)
  then have "snd (margin_range details) < 50"
    by (simp add: ranges_ok_def)
  moreover have m: "np_uniform (fst (margin_range details)) (snd (margin_range details)) u2 \<le> 45"
    using margin_draw_bounds(2) [OF ok assms(2)] .
  ultimately show ?thesis
    by (simp add: make_product_def py_truediv_def Let_def)
qed

theorem list_price_division_safe_witness:
  "(fst (last product_categories), snd (last product_categories)) \<in> set product_categories
   \<and> unit_sample (1 / 2)
   \<and> snd (margin_range (snd (last product_categories))) < 50
   \<and> (\<exists>row. make_product 35 (fst (last product_categories)) (snd (last product_categories))
                ''T-Shirts'' (1 / 2) (1 / 2) (1 / 2) = Inr row)"
proof -
  have 1: "(fst (last product_categories), snd (last product_categories)) \<in> set product_categories"
    by (simp add: product_categories_def)
  have 2: "unit_sample (1 / 2)"
    by (simp add: unit_sample_def)
  show ?thesis
    using list_price_division_safe [OF 1 2, of 35 "''T-Shirts''" "1 / 2" "1 / 2"] 1 2
    by blast
qed

text \<open>
  C8. The seven item lists have 6, 6, 6, 6, 5, 5 and 5 names. The generator returns 39
  rows, one for each item name in the order of the lists and no name twice: row \<open>i\<close> is
  the row that \<open>make_product\<close> builds for the \<open>i\<close>-th item visited, with product number
  \<open>i + 1\<close> and the next three draws. In every row the stored list price is above the
  stored unit cost.
\<close>

theorem product_count_and_prices:
  assumes "\<forall>i. unit_sample (rng i)"
  shows "map (\<lambda>(cat, details). length (items details)) product_categories = [6, 6, 6, 6, 5, 5, 5]
     \<and> (\<exists>products. generate_products rng pos0 = Inr products
           \<and> length products = 39
           \<and> map product_name products =
               concat (map (\<lambda>(cat, details). items details) product_categories)
           \<and> distinct (map product_name products)
           \<and> (\<forall>i < 39.
                 case loop_order product_categories ! i of (cat, details, item) \<Rightarrow>
                   make_product (1 + i) cat details item
                     (rng (pos0 + 3 * i)) (rng (pos0 + 3 * i + 1)) (rng (pos0 + 3 * i + 2))
                   = Inr (products ! i))
           \<and> (\<forall>p \<in> set products. unit_cost p < list_price p))"
proof -
  have "\<forall>(cat, details) \<in> set product_categories. ranges_ok details"
    using product_categories_ranges by blast
  from categories_loop_rows [OF assms this, of "[]" 1 pos0]
  obtain new where I: "categories_loop rng product_categories ([], 1, pos0) =
      Inr ([] @ new, 1 + length (loop_order product_categories),
           pos0 + 3 * length (loop_order product_categories))
    \<and> length new = length (loop_order product_categories)
    \<and> (\<forall>i < length (loop_order product_categories).
          case loop_order product_categories ! i of (cat, details, item) \<Rightarrow>
            make_product (1 + i) cat details item
              (rng (pos0 + 3 * i)) (rng (pos0 + 3 * i + 1)) (rng (pos0 + 3 * i + 2))
            = Inr (new ! i))
    \<and> (\<forall>p \<in> set new. unit_cost p < list_price p)" ..
  note run = I [THEN conjunct1]
    and len = I [THEN conjunct2, THEN conjunct1]
    and rows = I [THEN conjunct2, THEN conjunct2, THEN conjunct1]
    and all = I [THEN conjunct2, THEN conjunct2, THEN conjunct2]
  have gen: "generate_products rng pos0 = Inr new"
    using run by (simp add: generate_products_def)
  have len39: "length new = 39"
    using len by (simp only: length_loop_order)
  have rows39: "\<forall>i < 39.
      case loop_order product_categories ! i of (cat, details, item) \<Rightarrow>
        make_product (1 + i) cat details item
          (rng (pos0 + 3 * i)) (rng (pos0 + 3 * i + 1)) (rng (pos0 + 3 * i + 2))
        = Inr (new ! i)"
    using rows by (simp only: length_loop_order)
  have names: "map product_name new =
      concat (map (\<lambda>(cat, details). items details) product_categories)"
  proof -
    have "map product_name new = map (\<lambda>(cat, details, item). item) (loop_order product_categories)"
    proof (rule nth_equalityI)
      show "length (map product_name new) =
          length (map (\<lambda>(cat, details, item). item) (loop_order product_categories))"
        using len by simp
      fix i assume "i < length (map product_name new)"
      then have i: "i < length (loop_order product_categories)" using len by simp
      obtain cat details item where t: "loop_order product_categories ! i = (cat, details, item)"
        by (cases "loop_order product_categories ! i")
      from rows [rule_format, OF i] have "make_product (1 + i) cat details item
          (rng (pos0 + 3 * i)) (rng (pos0 + 3 * i + 1)) (rng (pos0 + 3 * i + 2)) = Inr (new ! i)"
        by (simp add: t)
      then have "product_name (new ! i) = item"
        by (rule make_product_fields(2))
      then show "map product_name new ! i =
          map (\<lambda>(cat, details, item). item) (loop_order product_categories) ! i"
        using i len by (simp add: t)
    qed
    then show ?thesis by (simp only: loop_order_names)
  qed
  have dist: "distinct (map product_name new)"
    by (simp only: names item_names_distinct)
  from gen len39 names dist rows39 all items_per_category show ?thesis
    by blast
qed

theorem product_count_and_prices_witness:
  "(\<forall>i. unit_sample ((\<lambda>i. 1 / 2) i))
   \<and> (\<exists>products. generate_products (\<lambda>i. 1 / 2) 0 = Inr products
          \<and> length products = 39
          \<and> map product_name products =
               concat (map (\<lambda>(cat, details). items details) product_categories)
          \<and> distinct (map product_name products)
          \<and> make_product 1 ''Groceries'' (snd (product_categories ! 0)) ''Basmati Rice 5kg''
                (1 / 2) (1 / 2) (1 / 2) = Inr (products ! 0)
          \<and> (\<forall>p \<in> set products. unit_cost p < list_price p))"
proof -
  have 1: "\<forall>i. unit_sample ((\<lambda>i. 1 / 2) i)"
    by (simp add: unit_sample_def)
  have first: "loop_order product_categories ! 0 =
      (''Groceries'', snd (product_categories ! 0), ''Basmati Rice 5kg'')"
    by (simp add: loop_order_def product_categories_def)
  from product_count_and_prices [OF 1, of 0]
  obtain products where gen: "generate_products (\<lambda>i. 1 / 2) 0 = Inr products"
    and len: "length products = 39"
    and names: "map product_name products =
        concat (map (\<lambda>(cat, details). items details) product_categories)"
    and dist: "distinct (map product_name products)"
    and rows: "\<forall>i < 39.
        case loop_order product_categories ! i of (cat, details, item) \<Rightarrow>
          make_product (1 + i) cat details item
            ((\<lambda>i. 1 / 2) (0 + 3 * i)) ((\<lambda>i. 1 / 2) (0 + 3 * i + 1))
            ((\<lambda>i. 1 / 2) (0 + 3 * i + 2))
          = Inr (products ! i)"
    and all: "\<forall>p \<in> set products. unit_cost p < list_price p"
    by blast
  have "make_product 1 ''Groceries'' (snd (product_categories ! 0)) ''Basmati Rice 5kg''
      (1 / 2) (1 / 2) (1 / 2) = Inr (products ! 0)"
    using rows [rule_format, of 0] by (simp add: first)
  with 1 gen len names dist all show ?thesis
    by blast
qed

section \<open>The guard of the classifier stage\<close>

lemma two_classes:
  "1 < length (remdups (map high_risk store_margin_pcts)) \<longleftrightarrow>
     (0 \<in> set (map high_risk store_margin_pcts) \<and> 1 \<in> set (map high_risk store_margin_pcts))"
proof -
  let ?S = "set (map high_risk store_margin_pcts)"
  have sub: "?S \<subseteq> {0, 1}" by (auto simp: high_risk_def)
  have len: "length (remdups (map high_risk store_margin_pcts)) = card ?S"
    by (simp add: length_remdups_card_conv)
  show ?thesis
  proof (cases "0 \<in> ?S \<and> 1 \<in> ?S")
    case True
    then have "{0, 1} \<subseteq> ?S" by simp
    then have "card {0, 1 :: int} \<le> card ?S" by (intro card_mono) simp_all
    then show ?thesis using True len by simp
  next
    case False
    then have "?S \<subseteq> {0} \<or> ?S \<subseteq> {1}" using sub by auto
    then have "card ?S \<le> 1"
    proof
      assume "?S \<subseteq> {0}"
      then have "card ?S \<le> card {0 :: int}" by (intro card_mono) simp_all
      then show ?thesis by simp
    next
      assume "?S \<subseteq> {1}"
      then have "card ?S \<le> card {1 :: int}" by (intro card_mono) simp_all
      then show ?thesis by simp
    qed
    then show ?thesis using False len by simp
  qed
qed

lemma run_steps_no_raise:
  "(\<forall>s \<in> set steps. raises s = None) \<Longrightarrow> run_steps raises steps = (steps, None)"
  by (induction steps) simp_all

lemma run_steps_first_raises:
  "raises s = Some e \<Longrightarrow> run_steps raises (s # rest) = ([], Some e)"
  by simp

text \<open>
  C9. When the label column has fewer than two distinct classes the stage prints the
  warning and ends without an exception, whatever the library calls would have raised:
  none of them is made. Otherwise the stage runs the split, the scaling, the fit and the
  reports in order, up to the first call that raises, and completes all of them when none
  raises. A training step is reached only when some store is below a mean margin of 10
  per cent and some store is not.
\<close>

theorem margin_risk_stage_guard:
  "(card (set (map high_risk store_margin_pcts)) < 2 \<longrightarrow>
      margin_risk_stage raises store_margin_pcts = ([Print_message warning_message], None))
   \<and> (\<not> card (set (map high_risk store_margin_pcts)) < 2 \<longrightarrow>
      margin_risk_stage raises store_margin_pcts = run_steps raises training_steps)
   \<and> (\<not> card (set (map high_risk store_margin_pcts)) < 2 \<longrightarrow>
      (\<forall>s \<in> set training_steps. raises s = None) \<longrightarrow>
      margin_risk_stage raises store_margin_pcts = (training_steps, None))
   \<and> (\<not> card (set (map high_risk store_margin_pcts)) < 2 \<longleftrightarrow>
        (\<exists>a \<in> set store_margin_pcts. a < 10) \<and> (\<exists>b \<in> set store_margin_pcts. \<not> b < 10))
   \<and> (margin_risk_stage raises store_margin_pcts \<noteq> ([Print_message warning_message], None)
        \<longrightarrow>
        (\<exists>a \<in> set store_margin_pcts. a < 10) \<and> (\<exists>b \<in> set store_margin_pcts. \<not> b < 10))"
proof -
  let ?y = "map high_risk store_margin_pcts"
  have len: "length (remdups ?y) = card (set ?y)"
    by (simp add: length_remdups_card_conv)
  have both: "(0 \<in> set ?y \<and> 1 \<in> set ?y) \<longleftrightarrow>
      (\<exists>a \<in> set store_margin_pcts. a < 10) \<and> (\<exists>b \<in> set store_margin_pcts. \<not> b < 10)"
    by (auto simp: high_risk_def split: if_splits)
  have 1: "card (set ?y) < 2 \<longrightarrow>
      margin_risk_stage raises store_margin_pcts = ([Print_message warning_message], None)"
  proof
    assume "card (set ?y) < 2"
    then have "\<not> 1 < length (remdups ?y)"
      unfolding len by linarith
    then show "margin_risk_stage raises store_margin_pcts =
        ([Print_message warning_message], None)"
      unfolding margin_risk_stage_def Let_def by (rule if_not_P)
  qed
  have 2: "\<not> card (set ?y) < 2 \<longrightarrow>
      margin_risk_stage raises store_margin_pcts = run_steps raises training_steps"
  proof
    assume "\<not> card (set ?y) < 2"
    then have "1 < length (remdups ?y)"
      unfolding len by linarith
    then show "margin_risk_stage raises store_margin_pcts = run_steps raises training_steps"
      unfolding margin_risk_stage_def Let_def by (rule if_P)
  qed
  have 3: "\<not> card (set ?y) < 2 \<longrightarrow> (\<forall>s \<in> set training_steps. raises s = None) \<longrightarrow>
      margin_risk_stage raises store_margin_pcts = (training_steps, None)"
    using 2 run_steps_no_raise [of training_steps raises] by simp
  have "\<not> card (set ?y) < 2 \<longleftrightarrow> 1 < length (remdups ?y)"
    unfolding len by linarith
  then have 4: "\<not> card (set ?y) < 2 \<longleftrightarrow>
      (\<exists>a \<in> set store_margin_pcts. a < 10) \<and> (\<exists>b \<in> set store_margin_pcts. \<not> b < 10)"
    using two_classes [of store_margin_pcts] both by blast
  have 5: "margin_risk_stage raises store_margin_pcts \<noteq> ([Print_message warning_message], None)
      \<longrightarrow> (\<exists>a \<in> set store_margin_pcts. a < 10) \<and> (\<exists>b \<in> set store_margin_pcts. \<not> b < 10)"
    using 1 4 by blast
  from 1 2 3 4 5 show ?thesis
    by blast
qed

theorem margin_risk_stage_guard_witness:
  "card (set (map high_risk [5, 6])) < 2
   \<and> margin_risk_stage (\<lambda>s. Some ValueError) [5, 6] = ([Print_message warning_message], None)
   \<and> \<not> card (set (map high_risk [5, 20])) < 2
   \<and> margin_risk_stage (stratify_raises (map high_risk [5, 20])) [5, 20] = ([], Some ValueError)
   \<and> \<not> card (set (map high_risk [5, 6, 20, 30])) < 2
   \<and> margin_risk_stage (stratify_raises (map high_risk [5, 6, 20, 30])) [5, 6, 20, 30]
       = (training_steps, None)"
proof -
  have a: "card (set (map high_risk [5, 6])) < 2"
    by (simp add: high_risk_def)
  have b: "\<not> card (set (map high_risk [5, 20])) < 2"
    by (simp add: high_risk_def)
  have c: "\<not> card (set (map high_risk [5, 6, 20, 30])) < 2"
    by (simp add: high_risk_def)
  have rb: "stratify_raises (map high_risk [5, 20]) Train_test_split = Some ValueError"
    by (simp add: stratify_raises_def high_risk_def)
  have rc: "\<forall>s \<in> set training_steps. stratify_raises (map high_risk [5, 6, 20, 30]) s = None"
    by (simp add: stratify_raises_def high_risk_def)
  have "margin_risk_stage (\<lambda>s. Some ValueError) [5, 6] = ([Print_message warning_message], None)"
    using margin_risk_stage_guard [of "[5, 6]" "\<lambda>s. Some ValueError"] a by blast
  moreover have "margin_risk_stage (stratify_raises (map high_risk [5, 20])) [5, 20] =
      run_steps (stratify_raises (map high_risk [5, 20])) training_steps"
    using margin_risk_stage_guard [of "[5, 20]" "stratify_raises (map high_risk [5, 20])"] b
    by blast
  then have "margin_risk_stage (stratify_raises (map high_risk [5, 20])) [5, 20] =
      ([], Some ValueError)"
    using rb by (simp add: training_steps_def)
  moreover have "margin_risk_stage (stratify_raises (map high_risk [5, 6, 20, 30]))
      [5, 6, 20, 30] = (training_steps, None)"
    using margin_risk_stage_guard
      [of "[5, 6, 20, 30]" "stratify_raises (map high_risk [5, 6, 20, 30])"] c rc
    by blast
  ultimately show ?thesis
    using a b c by blast
qed

section \<open>The names of the segments\<close>

lemma first_position:
  assumes "m \<in> set xs"
  shows "length (takeWhile (\<lambda>x. x \<noteq> m) xs) < length xs"
    and "xs ! length (takeWhile (\<lambda>x. x \<noteq> m) xs) = m"
    and "\<forall>j < length (takeWhile (\<lambda>x. x \<noteq> m) xs). xs ! j \<noteq> m"
proof -
  let ?k = "length (takeWhile (\<lambda>x. x \<noteq> m) xs)"
  show lt: "?k < length xs"
    using assms by (induction xs) auto
  show "xs ! ?k = m"
    using nth_length_takeWhile [OF lt] by simp
  show "\<forall>j < ?k. xs ! j \<noteq> m"
  proof (intro allI impI)
    fix j assume j: "j < ?k"
    then have "takeWhile (\<lambda>x. x \<noteq> m) xs ! j \<in> set (takeWhile (\<lambda>x. x \<noteq> m) xs)"
      by (rule nth_mem)
    then have "takeWhile (\<lambda>x. x \<noteq> m) xs ! j \<noteq> m"
      by (auto dest: set_takeWhileD)
    then show "xs ! j \<noteq> m"
      using takeWhile_nth [OF j] by simp
  qed
qed

lemma idxmax_first_largest:
  assumes "xs \<noteq> []"
  shows "\<exists>k. idxmax xs = Inr k \<and> k < length xs
           \<and> (\<forall>j < length xs. xs ! j \<le> xs ! k) \<and> (\<forall>j < k. xs ! j < xs ! k)"
proof -
  let ?m = "Max (set xs)"
  let ?k = "length (takeWhile (\<lambda>x. x \<noteq> ?m) xs)"
  have mem: "?m \<in> set xs" using assms by (simp add: Max_in)  
  note fp = first_position [OF mem]
  have le: "xs ! j \<le> ?m" if "j < length xs" for j
    using that by (simp add: Max_ge)
  have "idxmax xs = Inr ?k" using assms by (simp add: idxmax_def)
  moreover have "\<forall>j < length xs. xs ! j \<le> xs ! ?k"
    using le fp(2) by simp
  moreover have "\<forall>j < ?k. xs ! j < xs ! ?k"
  proof (intro allI impI)
    fix j assume j: "j < ?k"
    with fp(1) have "j < length xs" by simp
    then have "xs ! j \<le> ?m" by (rule le)
    moreover have "xs ! j \<noteq> ?m" using fp(3) j by simp
    ultimately show "xs ! j < xs ! ?k"
      unfolding fp(2) by (rule order.not_eq_order_implies_strict [rotated])
  qed
  ultimately show ?thesis using fp(1) by blast
qed

lemma idxmin_first_smallest:
  assumes "xs \<noteq> []"
  shows "\<exists>k. idxmin xs = Inr k \<and> k < length xs
           \<and> (\<forall>j < length xs. xs ! k \<le> xs ! j) \<and> (\<forall>j < k. xs ! k < xs ! j)"
proof -
  let ?m = "Min (set xs)"
  let ?k = "length (takeWhile (\<lambda>x. x \<noteq> ?m) xs)"
  have mem: "?m \<in> set xs" using assms by (simp add: Min_in)
  note fp = first_position [OF mem]
  have le: "?m \<le> xs ! j" if "j < length xs" for j
    using that by (simp add: Min_le)
  have "idxmin xs = Inr ?k" using assms by (simp add: idxmin_def)
  moreover have "\<forall>j < length xs. xs ! ?k \<le> xs ! j"
    using le fp(2) by simp
  moreover have "\<forall>j < ?k. xs ! ?k < xs ! j"
  proof (intro allI impI)
    fix j assume j: "j < ?k"
    with fp(1) have "j < length xs" by simp
    then have "?m \<le> xs ! j" by (rule le)
    moreover have "xs ! j \<noteq> ?m" using fp(3) j by simp
    then have "?m \<noteq> xs ! j" by (rule not_sym)
    ultimately show "xs ! ?k < xs ! j"
      unfolding fp(2) by (rule order.not_eq_order_implies_strict [rotated])
  qed
  ultimately show ?thesis using fp(1) by blast
qed

lemma cluster_names_lookup:
  assumes "idxmax (map avg_revenue ps) = Inr k1"
    and "idxmax (map avg_purchases ps) = Inr k2"
    and "idxmin (map avg_revenue ps) = Inr k3"
  shows "cluster_name_of ps k3 = Inr (Some ''Low Engagement'')"
    and "k2 \<noteq> k3 \<Longrightarrow> cluster_name_of ps k2 = Inr (Some ''Frequent Buyers'')"
    and "k1 \<noteq> k2 \<Longrightarrow> k1 \<noteq> k3 \<Longrightarrow> cluster_name_of ps k1 = Inr (Some ''High Value'')"
    and "k1 = k2 \<Longrightarrow> cluster_name_of ps k1 \<noteq> Inr (Some ''High Value'')"
proof -
  define names where
    "names = [k1 \<mapsto> ''High Value'', k2 \<mapsto> ''Frequent Buyers'', k3 \<mapsto> ''Low Engagement'']"
  define remaining where "remaining = filter (\<lambda>i. names i = None) [0..<optimal_k]"
  have cn: "cluster_name_of ps k =
      Inr ((if remaining \<noteq> [] then names(hd remaining \<mapsto> ''Moderate'') else names) k)" for k
    unfolding cluster_name_of_def cluster_names_def assms Let_def sum.case remaining_def names_def
    by (rule refl)
  have keep: "cluster_name_of ps k = Inr (names k)" if "names k \<noteq> None" for k
  proof (cases "remaining = []")
    case True
    then show ?thesis by (simp add: cn)
  next
    case False
    then have "hd remaining \<in> set remaining" by (rule hd_in_set)
    then have "names (hd remaining) = None" by (simp add: remaining_def)
    with that have "hd remaining \<noteq> k" by auto
    with False show ?thesis by (simp add: cn)
  qed
  have n3: "names k3 = Some ''Low Engagement''"
    by (simp add: names_def)
  have n2: "names k2 = Some ''Frequent Buyers''" if "k2 \<noteq> k3"
    using that by (simp add: names_def)
  have n1: "names k1 = Some ''High Value''" if "k1 \<noteq> k2" "k1 \<noteq> k3"
    using that by (simp add: names_def)
  have n12: "names k1 \<noteq> None \<and> names k1 \<noteq> Some ''High Value''" if "k1 = k2"
    using that by (simp add: names_def)
  show "cluster_name_of ps k3 = Inr (Some ''Low Engagement'')"
    using keep [of k3] n3 by simp
  show "k2 \<noteq> k3 \<Longrightarrow> cluster_name_of ps k2 = Inr (Some ''Frequent Buyers'')"
    using keep [of k2] n2 by simp
  show "k1 \<noteq> k2 \<Longrightarrow> k1 \<noteq> k3 \<Longrightarrow> cluster_name_of ps k1 = Inr (Some ''High Value'')"
    using keep [of k1] n1 by simp
  show "k1 = k2 \<Longrightarrow> cluster_name_of ps k1 \<noteq> Inr (Some ''High Value'')"
    using keep [of k1] n12 by simp
qed

lemma naming_example_eval:
  "idxmax (map avg_revenue naming_example_profiles) = Inr 0"
  "idxmax (map avg_purchases naming_example_profiles) = Inr 0"
  "idxmin (map avg_revenue naming_example_profiles) = Inr 3"
  by (simp_all add: naming_example_profiles_def idxmax_def idxmin_def)


lemma naming_example_names:
  "cluster_name_of naming_example_profiles 0 = Inr (Some ''Frequent Buyers'')"
  "cluster_name_of naming_example_profiles 1 = Inr (Some ''Moderate'')"
  "cluster_name_of naming_example_profiles 2 = Inr None"
  "cluster_name_of naming_example_profiles 3 = Inr (Some ''Low Engagement'')"
  by (simp_all add: cluster_name_of_def cluster_names_def naming_example_eval optimal_k_def
      upt_conv_Cons Let_def)

lemma high_value_lost_on_collision:
  assumes "idxmax (map avg_revenue ps) = Inr k"
    and "idxmax (map avg_purchases ps) = Inr k"
    and "idxmin (map avg_revenue ps) = Inr k3"
  shows "cluster_name_of ps cluster \<noteq> Inr (Some ''High Value'')"
  using assms
  by (simp add: cluster_name_of_def cluster_names_def Let_def)

text \<open>
  C1. The rule names the cluster of largest average revenue High Value, also when it is
  the cluster of largest average purchase count. At the profile table above the script
  does not: cluster 0 has both the largest average revenue and the largest average
  purchase count, the second entry of the dictionary display replaces the first, and the
  script names cluster 0 Frequent Buyers, cluster 1 Moderate and cluster 3 Low
  Engagement, gives cluster 2 no name, and names no cluster High Value.
\<close>

theorem cluster_naming_collision:
  "idxmax (map avg_revenue naming_example_profiles) = Inr 0
   \<and> idxmax (map avg_purchases naming_example_profiles) = Inr 0
   \<and> idxmin (map avg_revenue naming_example_profiles) = Inr 3
   \<and> cluster_name_of naming_example_profiles 0 = Inr (Some ''Frequent Buyers'')
   \<and> cluster_name_of naming_example_profiles 1 = Inr (Some ''Moderate'')
   \<and> cluster_name_of naming_example_profiles 2 = Inr None
   \<and> cluster_name_of naming_example_profiles 3 = Inr (Some ''Low Engagement'')
   \<and> cluster_name_of naming_example_profiles 0 \<noteq> Inr (Some ''High Value'')"
proof -
  have "cluster_name_of naming_example_profiles 0 \<noteq> Inr (Some ''High Value'')"
    by (simp add: naming_example_names(1))
  with naming_example_eval naming_example_names show ?thesis
    by blast
qed

end
